theory Spec2Isabelle
  imports Main "HOL-Library.Word"
begin

section \<open>The contract ForestFireRiskFHE\<close>

text \<open>
  A shallow embedding of \<^verbatim>\<open>contracts/ForestFireRiskFHE.sol\<close>. Storage is a record
  that every transaction takes and returns; a transaction that reverts returns an error
  and the caller keeps the storage it had, as the EVM rolls a reverted call back.
\<close>

subsection \<open>Value types\<close>

type_synonym uint256 = "256 word"
type_synonym uint32 = "32 word"
type_synonym bytes = "8 word list"

text \<open>
  \<^verbatim>\<open>euint32\<close> is an opaque handle of the FHE library. The contract never looks
  inside one; it only tests \<^verbatim>\<open>FHE.isInitialized\<close>, builds \<^verbatim>\<open>FHE.asEuint32\<close> of a
  constant and calls \<^verbatim>\<open>FHE.add\<close>. A handle is modelled by what it stands for:
  \<open>None\<close> is the zero handle of an unwritten storage slot, \<open>Some v\<close> a handle to a
  ciphertext of the 32-bit value \<open>v\<close>.
\<close>

type_synonym euint32 = "uint32 option"

definition isInitialized :: "euint32 \<Rightarrow> bool" where
  "isInitialized h = (h \<noteq> None)"

definition asEuint32 :: "uint32 \<Rightarrow> euint32" where
  "asEuint32 v = Some v"

definition plain :: "euint32 \<Rightarrow> uint32" where
  \<comment> \<open>the value an operand stands for; \<^verbatim>\<open>FHE.add\<close> reads the zero handle as 0\<close>
  "plain h = (case h of None \<Rightarrow> 0 | Some v \<Rightarrow> v)"

definition FHE_add :: "euint32 \<Rightarrow> euint32 \<Rightarrow> euint32" where
  \<comment> \<open>addition of two encrypted 32-bit values: it wraps at \<open>2 ^ 32\<close>\<close>
  "FHE_add a b = Some (plain a + plain b)"

text \<open>
  What the contract takes from outside: the oracle's signature check, the ABI decoder
  for the two shapes of cleartext it decodes, and \<^verbatim>\<open>keccak256(abi.encodePacked(_))\<close>
  on a category label. The request identifier that \<^verbatim>\<open>FHE.requestDecryption\<close> returns
  is chosen by the oracle, so the two requesting functions take it as an argument.
\<close>

record fhe =
  checkSignatures :: "uint256 \<Rightarrow> bytes \<Rightarrow> bytes \<Rightarrow> bool"
  decode_strings :: "bytes \<Rightarrow> string list option"
  decode_uint32 :: "bytes \<Rightarrow> uint32 option"
  keccak256 :: "string \<Rightarrow> uint256"

datatype error =
    Revert string         \<comment> \<open>\<^verbatim>\<open>require\<close> or \<^verbatim>\<open>revert\<close> with its message\<close>
  | Panic nat             \<comment> \<open>0x11 arithmetic overflow, 0x32 index out of bounds\<close>
  | InvalidSignatures     \<comment> \<open>\<^verbatim>\<open>FHE.checkSignatures\<close> rejected the proof\<close>
  | DecodeError           \<comment> \<open>\<^verbatim>\<open>abi.decode\<close> rejected the bytes\<close>

subsection \<open>Storage\<close>

record EncryptedData =
  id_e :: uint256
  encryptedTemperature :: euint32
  encryptedHumidity :: euint32
  encryptedVegetation :: euint32
  encryptedHistoricalFires :: euint32
  timestamp :: uint256

record DecryptedData =
  temperature :: string
  humidity :: string
  vegetation :: string
  historicalFires :: string
  isRevealed :: bool

datatype event =
    DataSubmitted uint256 uint256
  | DecryptionRequested uint256
  | DataDecrypted uint256

text \<open>
  A Solidity mapping is total: a key never written reads as the zero value of the value
  type. \<open>events\<close> is the log the contract has emitted, oldest first.
\<close>

record contract =
  dataCount :: uint256
  encryptedDataset :: "uint256 \<Rightarrow> EncryptedData"
  decryptedDataset :: "uint256 \<Rightarrow> DecryptedData"
  encryptedRiskCategoryCount :: "string \<Rightarrow> euint32"
  riskCategories :: "string list"
  requestToDataId :: "uint256 \<Rightarrow> uint256"
  events :: "event list"

definition zeroEncrypted :: EncryptedData where
  "zeroEncrypted = \<lparr>id_e = 0, encryptedTemperature = None, encryptedHumidity = None,
     encryptedVegetation = None, encryptedHistoricalFires = None, timestamp = 0\<rparr>"

definition zeroDecrypted :: DecryptedData where
  "zeroDecrypted = \<lparr>temperature = [], humidity = [], vegetation = [],
     historicalFires = [], isRevealed = False\<rparr>"

definition deployed :: contract where
  "deployed = \<lparr>dataCount = 0, encryptedDataset = (\<lambda>_. zeroEncrypted),
     decryptedDataset = (\<lambda>_. zeroDecrypted), encryptedRiskCategoryCount = (\<lambda>_. None),
     riskCategories = [], requestToDataId = (\<lambda>_. 0), events = []\<rparr>"

subsection \<open>Functions of the contract\<close>

definition submitEncryptedData ::
  "euint32 \<Rightarrow> euint32 \<Rightarrow> euint32 \<Rightarrow> euint32 \<Rightarrow> uint256 \<Rightarrow> contract \<Rightarrow> error + contract" where
  \<comment> \<open>the fifth argument is \<^verbatim>\<open>block.timestamp\<close>; \<^verbatim>\<open>dataCount += 1\<close> is checked arithmetic\<close>
  "submitEncryptedData eT eH eV eF now s =
     (if dataCount s = - 1 then Inl (Panic 0x11)
      else
        let newId = dataCount s + 1 in
        Inr (s\<lparr>dataCount := newId,
               encryptedDataset := (encryptedDataset s)(newId :=
                 \<lparr>id_e = newId, encryptedTemperature = eT, encryptedHumidity = eH,
                  encryptedVegetation = eV, encryptedHistoricalFires = eF, timestamp = now\<rparr>),
               decryptedDataset := (decryptedDataset s)(newId :=
                 \<lparr>temperature = [], humidity = [], vegetation = [],
                  historicalFires = [], isRevealed = False\<rparr>),
               events := events s @ [DataSubmitted newId now]\<rparr>))"

definition requestDataDecryption :: "uint256 \<Rightarrow> uint256 \<Rightarrow> contract \<Rightarrow> error + contract" where
  \<comment> \<open>\<open>reqId\<close> is what \<^verbatim>\<open>FHE.requestDecryption\<close> returned for the four handles
      of the record, which go to the oracle and into no storage of the contract; the
      modifier \<^verbatim>\<open>onlyDataProvider\<close> has an empty body\<close>
  "requestDataDecryption reqId dataId s =
     (if isRevealed (decryptedDataset s dataId) then Inl (Revert ''Already decrypted'')
      else Inr (s\<lparr>requestToDataId := (requestToDataId s)(reqId := dataId),
                  events := events s @ [DecryptionRequested dataId]\<rparr>))"

definition index :: "'a list \<Rightarrow> nat \<Rightarrow> error + 'a" where
  \<comment> \<open>a checked read of a memory array\<close>
  "index xs i = (if i < length xs then Inr (xs ! i) else Inl (Panic 0x32))"

definition computeRiskCategory :: "DecryptedData \<Rightarrow> string" where
  "computeRiskCategory dData = ''High''"

definition decryptData :: "fhe \<Rightarrow> uint256 \<Rightarrow> bytes \<Rightarrow> bytes \<Rightarrow> contract \<Rightarrow> error + contract" where
  \<comment> \<open>the writes through the storage pointer \<^verbatim>\<open>dData\<close> are made one by one, each
      after the checked read of its element of \<^verbatim>\<open>results\<close>\<close>
  "decryptData env requestId cleartexts prf s =
     (let dataId = requestToDataId s requestId in
      if dataId = 0 then Inl (Revert ''Invalid request'')
      else if isRevealed (decryptedDataset s dataId) then Inl (Revert ''Already decrypted'')
      else if \<not> checkSignatures env requestId cleartexts prf then Inl InvalidSignatures
      else
        case decode_strings env cleartexts of
          None \<Rightarrow> Inl DecodeError
        | Some results \<Rightarrow>
           (case index results 0 of Inl e \<Rightarrow> Inl e | Inr r0 \<Rightarrow>
            let d0 = (decryptedDataset s dataId)\<lparr>temperature := r0\<rparr> in
            case index results 1 of Inl e \<Rightarrow> Inl e | Inr r1 \<Rightarrow>
            let d1 = d0\<lparr>humidity := r1\<rparr> in
            case index results 2 of Inl e \<Rightarrow> Inl e | Inr r2 \<Rightarrow>
            let d2 = d1\<lparr>vegetation := r2\<rparr> in
            case index results 3 of Inl e \<Rightarrow> Inl e | Inr r3 \<Rightarrow>
            let d3 = d2\<lparr>historicalFires := r3\<rparr>;
                d4 = d3\<lparr>isRevealed := True\<rparr>;
                riskCategory = computeRiskCategory d4;
                fresh = (isInitialized (encryptedRiskCategoryCount s riskCategory) = False);
                counts = (if fresh
                          then (encryptedRiskCategoryCount s)(riskCategory := asEuint32 0)
                          else encryptedRiskCategoryCount s);
                categories = (if fresh then riskCategories s @ [riskCategory]
                              else riskCategories s)
            in Inr (s\<lparr>decryptedDataset := (decryptedDataset s)(dataId := d4),
                       encryptedRiskCategoryCount :=
                         counts(riskCategory := FHE_add (counts riskCategory) (asEuint32 1)),
                       riskCategories := categories,
                       events := events s @ [DataDecrypted dataId]\<rparr>)))"

definition getDecryptedData :: "contract \<Rightarrow> uint256 \<Rightarrow> string \<times> string \<times> string \<times> string \<times> bool" where
  "getDecryptedData s dataId =
     (let r = decryptedDataset s dataId in
      (temperature r, humidity r, vegetation r, historicalFires r, isRevealed r))"

definition getEncryptedRiskCategoryCount :: "contract \<Rightarrow> string \<Rightarrow> euint32" where
  "getEncryptedRiskCategoryCount s category = encryptedRiskCategoryCount s category"

definition bytes32ToUint :: "uint256 \<Rightarrow> uint256" where
  \<comment> \<open>\<^verbatim>\<open>uint256(b)\<close>: a \<^verbatim>\<open>bytes32\<close> and a \<^verbatim>\<open>uint256\<close> are the same 256 bits\<close>
  "bytes32ToUint b = b"

definition requestRiskCategoryDecryption ::
  "fhe \<Rightarrow> uint256 \<Rightarrow> string \<Rightarrow> contract \<Rightarrow> error + contract" where
  \<comment> \<open>\<open>reqId\<close> is what \<^verbatim>\<open>FHE.requestDecryption\<close> returned for the handle of the count\<close>
  "requestRiskCategoryDecryption env reqId category s =
     (let count = encryptedRiskCategoryCount s category in
      if \<not> isInitialized count then Inl (Revert ''Category not found'')
      else Inr (s\<lparr>requestToDataId :=
                   (requestToDataId s)(reqId := bytes32ToUint (keccak256 env category))\<rparr>))"

fun scanCategories :: "fhe \<Rightarrow> string list \<Rightarrow> uint256 \<Rightarrow> error + string" where
  \<comment> \<open>the loop of \<^verbatim>\<open>getCategoryFromHash\<close>, from index \<open>i\<close> on\<close>
  "scanCategories env [] hash = Inl (Revert ''Category not found'')"
| "scanCategories env (c # cs) hash =
     (if bytes32ToUint (keccak256 env c) = hash then Inr c else scanCategories env cs hash)"

definition getCategoryFromHash :: "fhe \<Rightarrow> contract \<Rightarrow> uint256 \<Rightarrow> error + string" where
  "getCategoryFromHash env s hash = scanCategories env (riskCategories s) hash"

definition decryptRiskCategory ::
  "fhe \<Rightarrow> uint256 \<Rightarrow> bytes \<Rightarrow> bytes \<Rightarrow> contract \<Rightarrow> error + string \<times> uint32" where
  \<comment> \<open>the function writes no storage and emits nothing; the result is its two locals
      \<^verbatim>\<open>category\<close> and \<^verbatim>\<open>count\<close> where the body ends\<close>
  "decryptRiskCategory env requestId cleartexts prf s =
     (let categoryHash = requestToDataId s requestId in
      case getCategoryFromHash env s categoryHash of
        Inl e \<Rightarrow> Inl e
      | Inr category \<Rightarrow>
          if \<not> checkSignatures env requestId cleartexts prf then Inl InvalidSignatures
          else (case decode_uint32 env cleartexts of
                  None \<Rightarrow> Inl DecodeError
                | Some count \<Rightarrow> Inr (category, count)))"

subsection \<open>Transactions\<close>

datatype call =
    SubmitEncryptedData euint32 euint32 euint32 euint32 uint256
  | RequestDataDecryption uint256 uint256
  | DecryptData uint256 bytes bytes
  | RequestRiskCategoryDecryption uint256 string
  | DecryptRiskCategory uint256 bytes bytes

fun exec :: "fhe \<Rightarrow> call \<Rightarrow> contract \<Rightarrow> error + contract" where
  "exec env (SubmitEncryptedData eT eH eV eF now) s = submitEncryptedData eT eH eV eF now s"
| "exec env (RequestDataDecryption reqId dataId) s = requestDataDecryption reqId dataId s"
| "exec env (DecryptData requestId cleartexts prf) s = decryptData env requestId cleartexts prf s"
| "exec env (RequestRiskCategoryDecryption reqId category) s =
     requestRiskCategoryDecryption env reqId category s"
| "exec env (DecryptRiskCategory requestId cleartexts prf) s =
     (case decryptRiskCategory env requestId cleartexts prf s of
        Inl e \<Rightarrow> Inl e | Inr _ \<Rightarrow> Inr s)"

definition step :: "fhe \<Rightarrow> call \<Rightarrow> contract \<Rightarrow> contract" where
  \<comment> \<open>one transaction: a reverted call leaves storage and log as they were\<close>
  "step env c s = (case exec env c s of Inl _ \<Rightarrow> s | Inr s' \<Rightarrow> s')"

fun run :: "fhe \<Rightarrow> call list \<Rightarrow> contract \<Rightarrow> contract" where
  "run env [] s = s"
| "run env (c # cs) s = run env cs (step env c s)"


text \<open>Reading the log.\<close>

fun submitted_ids :: "event list \<Rightarrow> uint256 list" where
  "submitted_ids [] = []"
| "submitted_ids (DataSubmitted i t # es) = i # submitted_ids es"
| "submitted_ids (e # es) = submitted_ids es"

fun decrypted_ids :: "event list \<Rightarrow> uint256 list" where
  "decrypted_ids [] = []"
| "decrypted_ids (DataDecrypted i # es) = i # decrypted_ids es"
| "decrypted_ids (e # es) = decrypted_ids es"



text \<open>
  A concrete environment for running examples. A proof is accepted when it is not empty.
  The byte string \<open>[1]\<close> stands for the ABI encoding of the four strings of the
  specification's scenario, \<open>[2]\<close> for an encoding of two strings only; a single byte
  decodes to the 32-bit number it holds.
\<close>

definition demo_keccak :: "string \<Rightarrow> uint256" where
  "demo_keccak c = word_of_nat (length c) + 1000"

definition demo :: fhe where
  "demo = \<lparr>checkSignatures = (\<lambda>_ _ p. p \<noteq> []),
            decode_strings = (\<lambda>b. if b = [1] then Some [''20'', ''55'', ''0.3'', ''2'']
                                   else if b = [2] then Some [''20'', ''55''] else None),
            decode_uint32 = (\<lambda>b. case b of [w] \<Rightarrow> Some (word_of_nat (unat w)) | _ \<Rightarrow> None),
            keccak256 = demo_keccak\<rparr>"

definition example_calls :: "call list" where
  \<comment> \<open>one submit at time 1700000000, a reveal request for record 1 that the oracle
      numbered 7, and the oracle's callback for request 7\<close>
  "example_calls =
     [SubmitEncryptedData (Some 20) (Some 55) (Some 3) (Some 2) 1700000000,
      RequestDataDecryption 7 1,
      DecryptData 7 [1] [1]]"

definition submitted_once :: contract where
  \<comment> \<open>the contract after one submit at time 1700000000\<close>
  "submitted_once =
     run demo [SubmitEncryptedData (Some 20) (Some 55) (Some 3) (Some 2) 1700000000] deployed"

definition requested_once :: contract where
  \<comment> \<open>then a reveal request for record 1 that the oracle numbered 7\<close>
  "requested_once = run demo [RequestDataDecryption 7 1] submitted_once"

definition revealed_once :: contract where
  \<comment> \<open>then the oracle's callback for request 7\<close>
  "revealed_once = run demo [DecryptData 7 [1] [1]] requested_once"



section \<open>Auxiliary facts\<close>

subsection \<open>Arithmetic on identifiers\<close>

lemma succ_unat: "(d::uint256) \<noteq> - 1 \<Longrightarrow> unat (d + 1) = Suc (unat d)"
  by (simp add: add.commute add_eq_0_iff unatSuc)





subsection \<open>The log\<close>

lemma submitted_ids_append: "submitted_ids (xs @ ys) = submitted_ids xs @ submitted_ids ys"
  by (induction xs rule: submitted_ids.induct) simp_all

lemma decrypted_ids_append: "decrypted_ids (xs @ ys) = decrypted_ids xs @ decrypted_ids ys"
  by (induction xs rule: decrypted_ids.induct) simp_all


subsection \<open>What a successful call does\<close>

lemma submitEncryptedData_Inr:
  assumes "submitEncryptedData eT eH eV eF now s = Inr s'"
  shows "dataCount s \<noteq> - 1"
    and "s' = s\<lparr>dataCount := dataCount s + 1,
               encryptedDataset := (encryptedDataset s)(dataCount s + 1 :=
                 \<lparr>id_e = dataCount s + 1, encryptedTemperature = eT, encryptedHumidity = eH,
                  encryptedVegetation = eV, encryptedHistoricalFires = eF, timestamp = now\<rparr>),
               decryptedDataset := (decryptedDataset s)(dataCount s + 1 := zeroDecrypted),
               events := events s @ [DataSubmitted (dataCount s + 1) now]\<rparr>"
  using assms by (auto simp: submitEncryptedData_def Let_def zeroDecrypted_def split: if_splits)

lemma requestDataDecryption_Inr:
  assumes "requestDataDecryption reqId dataId s = Inr s'"
  shows "\<not> isRevealed (decryptedDataset s dataId)"
    and "s' = s\<lparr>requestToDataId := (requestToDataId s)(reqId := dataId),
               events := events s @ [DecryptionRequested dataId]\<rparr>"
  using assms by (auto simp: requestDataDecryption_def split: if_splits)

lemma requestRiskCategoryDecryption_Inr:
  assumes "requestRiskCategoryDecryption env reqId category s = Inr s'"
  shows "encryptedRiskCategoryCount s category \<noteq> None"
    and "s' = s\<lparr>requestToDataId := (requestToDataId s)(reqId := keccak256 env category)\<rparr>"
  using assms
  by (auto simp: requestRiskCategoryDecryption_def Let_def isInitialized_def bytes32ToUint_def
      split: if_splits)

lemma overwrite_all:
  "(d::DecryptedData)\<lparr>temperature := a, humidity := b, vegetation := c,
      historicalFires := e, isRevealed := f\<rparr>
   = \<lparr>temperature = a, humidity = b, vegetation = c, historicalFires = e, isRevealed = f\<rparr>"
  by (cases d) simp

lemma decryptData_Inr:
  assumes "decryptData env r ct p s = Inr s'"
  shows "\<exists>res. requestToDataId s r \<noteq> 0
      \<and> \<not> isRevealed (decryptedDataset s (requestToDataId s r))
      \<and> checkSignatures env r ct p
      \<and> decode_strings env ct = Some res \<and> 4 \<le> length res
      \<and> s' = s\<lparr>decryptedDataset := (decryptedDataset s)(requestToDataId s r :=
                  \<lparr>temperature = res ! 0, humidity = res ! 1, vegetation = res ! 2,
                   historicalFires = res ! 3, isRevealed = True\<rparr>),
                encryptedRiskCategoryCount := (encryptedRiskCategoryCount s)(''High'' :=
                  Some (plain (encryptedRiskCategoryCount s ''High'') + 1)),
                riskCategories := (if encryptedRiskCategoryCount s ''High'' = None
                  then riskCategories s @ [''High''] else riskCategories s),
                events := events s @ [DataDecrypted (requestToDataId s r)]\<rparr>"
  using assms
  unfolding decryptData_def Let_def index_def computeRiskCategory_def isInitialized_def
    asEuint32_def FHE_add_def plain_def
  by (auto simp: overwrite_all split: if_splits option.splits sum.splits)


text \<open>One transaction either leaves the contract as it was or is one of four writes.\<close>

lemma step_cases:
  obtains (same) "step env c s = s"
  | (submit) eT eH eV eF now where "c = SubmitEncryptedData eT eH eV eF now"
      "submitEncryptedData eT eH eV eF now s = Inr (step env c s)"
  | (request) reqId dataId where "c = RequestDataDecryption reqId dataId"
      "requestDataDecryption reqId dataId s = Inr (step env c s)"
  | (decrypt) r ct p where "c = DecryptData r ct p"
      "decryptData env r ct p s = Inr (step env c s)"
  | (category) reqId category where "c = RequestRiskCategoryDecryption reqId category"
      "requestRiskCategoryDecryption env reqId category s = Inr (step env c s)"
proof (cases "exec env c s")
  case (Inl e)
  then have "step env c s = s" by (simp add: step_def)
  then show ?thesis by (rule same)
next
  case (Inr s')
  then have st: "step env c s = s'" by (simp add: step_def)
  show ?thesis
  proof (cases c)
    case (SubmitEncryptedData eT eH eV eF now)
    with Inr st show ?thesis by (intro submit [of eT eH eV eF now]) simp_all
  next
    case (RequestDataDecryption reqId dataId)
    with Inr st show ?thesis by (intro request [of reqId dataId]) simp_all
  next
    case (DecryptData r ct p)
    with Inr st show ?thesis by (intro decrypt [of r ct p]) simp_all
  next
    case (RequestRiskCategoryDecryption reqId category)
    with Inr st show ?thesis by (intro category [of reqId category]) simp_all
  next
    case (DecryptRiskCategory r ct p)
    with Inr st have "step env c s = s" by (auto split: sum.splits)
    then show ?thesis by (rule same)
  qed
qed

lemma run_invariant:
  assumes "P s" and "\<And>s c. P s \<Longrightarrow> P (step env c s)"
  shows "P (run env cs s)"
  using assms(1) by (induction cs arbitrary: s) (simp_all add: assms(2))

lemmas demo_defs = submitted_once_def requested_once_def revealed_once_def demo_def demo_keccak_def
  deployed_def step_def submitEncryptedData_def requestDataDecryption_def decryptData_def
  index_def computeRiskCategory_def isInitialized_def asEuint32_def FHE_add_def plain_def
  zeroDecrypted_def zeroEncrypted_def Let_def

subsection \<open>Once revealed, an allocated record stays as it is\<close>




subsection \<open>Invariants of the reachable states\<close>


lemma categories_invariant:
  "riskCategories (run env cs deployed) =
     (if encryptedRiskCategoryCount (run env cs deployed) ''High'' = None then [] else [''High''])"
proof (rule run_invariant)
  show "riskCategories deployed =
      (if encryptedRiskCategoryCount deployed ''High'' = None then [] else [''High''])"
    by (simp add: deployed_def)
next
  fix s :: contract and c
  assume inv: "riskCategories s =
      (if encryptedRiskCategoryCount s ''High'' = None then [] else [''High''])"
  show "riskCategories (step env c s) =
      (if encryptedRiskCategoryCount (step env c s) ''High'' = None then [] else [''High''])"
  proof (cases rule: step_cases [of env c s])
    case same
    with inv show ?thesis by simp
  next
    case (submit eT eH eV eF now)
    from submitEncryptedData_Inr(2) [OF submit(2)] inv show ?thesis by simp
  next
    case (request reqId dataId)
    from requestDataDecryption_Inr(2) [OF request(2)] inv show ?thesis by simp
  next
    case (decrypt r ct p)
    from decryptData_Inr [OF decrypt(2)] inv show ?thesis by auto
  next
    case (category reqId cat)
    from requestRiskCategoryDecryption_Inr(2) [OF category(2)] inv show ?thesis by simp
  qed
qed

lemma slots_invariant:
  "(\<not> isRevealed (decryptedDataset (run env cs deployed) i) \<longrightarrow>
      decryptedDataset (run env cs deployed) i = zeroDecrypted)
   \<and> (isRevealed (decryptedDataset (run env cs deployed) i) \<longrightarrow>
      i \<noteq> 0 \<and> i \<in> set (decrypted_ids (events (run env cs deployed))))"
proof (rule run_invariant)
  show "(\<not> isRevealed (decryptedDataset deployed i) \<longrightarrow> decryptedDataset deployed i = zeroDecrypted)
      \<and> (isRevealed (decryptedDataset deployed i) \<longrightarrow>
          i \<noteq> 0 \<and> i \<in> set (decrypted_ids (events deployed)))"
    by (simp add: deployed_def zeroDecrypted_def)
next
  fix s :: contract and c
  assume inv: "(\<not> isRevealed (decryptedDataset s i) \<longrightarrow> decryptedDataset s i = zeroDecrypted)
      \<and> (isRevealed (decryptedDataset s i) \<longrightarrow> i \<noteq> 0 \<and> i \<in> set (decrypted_ids (events s)))"
  show "(\<not> isRevealed (decryptedDataset (step env c s) i) \<longrightarrow>
          decryptedDataset (step env c s) i = zeroDecrypted)
      \<and> (isRevealed (decryptedDataset (step env c s) i) \<longrightarrow>
          i \<noteq> 0 \<and> i \<in> set (decrypted_ids (events (step env c s))))"
  proof (cases rule: step_cases [of env c s])
    case same
    with inv show ?thesis by simp
  next
    case (submit eT eH eV eF now)
    from submitEncryptedData_Inr(2) [OF submit(2)] inv show ?thesis
      by (simp add: decrypted_ids_append zeroDecrypted_def)
  next
    case (request reqId dataId)
    from requestDataDecryption_Inr(2) [OF request(2)] inv show ?thesis
      by (simp add: decrypted_ids_append)
  next
    case (decrypt r ct p)
    from decryptData_Inr [OF decrypt(2)] obtain res where
      tgt: "requestToDataId s r \<noteq> 0" and
      eq: "step env c s = s\<lparr>decryptedDataset := (decryptedDataset s)(requestToDataId s r :=
                  \<lparr>temperature = res ! 0, humidity = res ! 1, vegetation = res ! 2,
                   historicalFires = res ! 3, isRevealed = True\<rparr>),
                encryptedRiskCategoryCount := (encryptedRiskCategoryCount s)(''High'' :=
                  Some (plain (encryptedRiskCategoryCount s ''High'') + 1)),
                riskCategories := (if encryptedRiskCategoryCount s ''High'' = None
                  then riskCategories s @ [''High''] else riskCategories s),
                events := events s @ [DataDecrypted (requestToDataId s r)]\<rparr>"
      by blast
    show ?thesis
    proof (cases "i = requestToDataId s r")
      case True
      with tgt show ?thesis by (simp add: eq decrypted_ids_append)
    next
      case False
      with inv show ?thesis by (simp add: eq decrypted_ids_append)
    qed
  next
    case (category reqId cat)
    from requestRiskCategoryDecryption_Inr(2) [OF category(2)] inv show ?thesis by simp
  qed
qed

lemma scanCategories_miss:
  assumes "\<forall>c\<in>set cats. keccak256 env c \<noteq> h"
  shows "scanCategories env cats h = Inl (Revert ''Category not found'')"
  using assms by (induction cats) (simp_all add: bytes32ToUint_def)



lemma submitted_invariant:
  "map unat (submitted_ids (events (run env cs deployed)))
     = [1..<Suc (unat (dataCount (run env cs deployed)))]"
proof (rule run_invariant)
  show "map unat (submitted_ids (events deployed)) = [1..<Suc (unat (dataCount deployed))]"
    by (simp add: deployed_def)
next
  fix s :: contract and c
  assume inv: "map unat (submitted_ids (events s)) = [1..<Suc (unat (dataCount s))]"
  show "map unat (submitted_ids (events (step env c s)))
      = [1..<Suc (unat (dataCount (step env c s)))]"
  proof (cases rule: step_cases [of env c s])
    case same
    with inv show ?thesis by simp
  next
    case (submit eT eH eV eF now)
    from submitEncryptedData_Inr [OF submit(2)] inv show ?thesis
      by (simp add: submitted_ids_append succ_unat)
  next
    case (request reqId dataId)
    from requestDataDecryption_Inr(2) [OF request(2)] inv show ?thesis
      by (simp add: submitted_ids_append)
  next
    case (decrypt r ct p)
    from decryptData_Inr [OF decrypt(2)] obtain e where
      "dataCount (step env c s) = dataCount s" and "events (step env c s) = events s @ [DataDecrypted e]"
      by auto
    with inv show ?thesis by (simp add: submitted_ids_append)
  next
    case (category reqId cat)
    from requestRiskCategoryDecryption_Inr(2) [OF category(2)] inv show ?thesis by simp
  qed
qed


subsection \<open>The tally of "High"\<close>







subsection \<open>Runs built from rounds\<close>






section \<open>Properties of the contract\<close>



text \<open>
  C2. The signature check of \<open>decryptData\<close> comes after the two \<open>require\<close>s, which
  write nothing, and before every write: a call whose proof is rejected reverts, whatever
  the cleartexts decode to, and storage and log stay as they were.
\<close>

theorem decryptData_rejects_bad_proof:
  assumes "\<not> checkSignatures env requestId cleartexts prf"
  shows "decryptData env requestId cleartexts prf s =
           Inl (if requestToDataId s requestId = 0 then Revert ''Invalid request''
                else if isRevealed (decryptedDataset s (requestToDataId s requestId))
                then Revert ''Already decrypted'' else InvalidSignatures)
       \<and> step env (DecryptData requestId cleartexts prf) s = s"
  using assms by (simp add: decryptData_def step_def)

theorem decryptData_rejects_bad_proof_witness:
  "\<not> checkSignatures demo 7 [1] []
   \<and> decode_strings demo [1] = Some [''20'', ''55'', ''0.3'', ''2'']
   \<and> decryptData demo 7 [1] [] requested_once = Inl InvalidSignatures
   \<and> step demo (DecryptData 7 [1] []) requested_once = requested_once"
proof -
  have h: "\<not> checkSignatures demo 7 [1] []" by (simp add: demo_def)
  have a: "requestToDataId requested_once 7 = 1" by (simp add: demo_defs)
  have b: "\<not> isRevealed (decryptedDataset requested_once 1)" by (simp add: demo_defs)
  have c: "decode_strings demo [1] = Some [''20'', ''55'', ''0.3'', ''2'']" by (simp add: demo_def)
  from decryptData_rejects_bad_proof [OF h, of requested_once] h a b c show ?thesis by simp
qed




text \<open>
  C4. Let a request id resolve to the reserved value 0 in the pending-request table of a
  reachable state. Then \<open>decryptData\<close> reverts with "Invalid request" and
  \<open>decryptRiskCategory\<close> with "Category not found", and neither changes the contract.
  The second needs that the hash of no known label is 0; the only label the contract ever
  registers is "High".
\<close>

theorem unknown_request_rejected:
  assumes "keccak256 env ''High'' \<noteq> 0"
    and "requestToDataId (run env cs deployed) requestId = 0"
  shows "decryptData env requestId cleartexts prf (run env cs deployed)
           = Inl (Revert ''Invalid request'')
       \<and> decryptRiskCategory env requestId cleartexts prf (run env cs deployed)
           = Inl (Revert ''Category not found'')
       \<and> step env (DecryptData requestId cleartexts prf) (run env cs deployed)
           = run env cs deployed
       \<and> step env (DecryptRiskCategory requestId cleartexts prf) (run env cs deployed)
           = run env cs deployed"
proof -
  let ?s = "run env cs deployed"
  have a: "decryptData env requestId cleartexts prf ?s = Inl (Revert ''Invalid request'')"
    using assms(2) by (simp add: decryptData_def)
  have "\<forall>c\<in>set (riskCategories ?s). keccak256 env c \<noteq> 0"
    using assms(1) by (simp add: categories_invariant)
  then have "getCategoryFromHash env ?s 0 = Inl (Revert ''Category not found'')"
    unfolding getCategoryFromHash_def by (rule scanCategories_miss)
  then have b: "decryptRiskCategory env requestId cleartexts prf ?s
      = Inl (Revert ''Category not found'')"
    using assms(2) by (simp add: decryptRiskCategory_def)
  from a b show ?thesis by (simp add: step_def)
qed

theorem unknown_request_rejected_witness:
  "keccak256 demo ''High'' \<noteq> 0
   \<and> requestToDataId (run demo example_calls deployed) 9 = 0
   \<and> riskCategories (run demo example_calls deployed) = [''High'']
   \<and> decryptData demo 9 [1] [1] (run demo example_calls deployed)
       = Inl (Revert ''Invalid request'')
   \<and> decryptRiskCategory demo 9 [1] [1] (run demo example_calls deployed)
       = Inl (Revert ''Category not found'')"
proof -
  have h1: "keccak256 demo ''High'' \<noteq> 0" by (simp add: demo_def demo_keccak_def)
  have h2: "requestToDataId (run demo example_calls deployed) 9 = 0"
    by (simp add: example_calls_def demo_defs)
  have h3: "riskCategories (run demo example_calls deployed) = [''High'']"
    by (simp add: example_calls_def demo_defs)
  from unknown_request_rejected [OF h1 h2] h1 h2 h3 show ?thesis by simp
qed




text \<open>
  C6. In every reachable state the ids of the \<open>DataSubmitted\<close> entries of the log, read
  as numbers and in the order of emission, are \<open>1, 2, \<dots>, dataCount\<close>: the k-th submit
  that succeeds emits id k, and 0 is never emitted. A submit that succeeds emits one entry,
  whose id is the counter it found plus one.
\<close>

theorem submitted_ids_consecutive:
  "map unat (submitted_ids (events (run env cs deployed)))
     = [1..<Suc (unat (dataCount (run env cs deployed)))]
   \<and> 0 \<notin> set (submitted_ids (events (run env cs deployed)))
   \<and> (submitEncryptedData eT eH eV eF now s = Inr s' \<longrightarrow>
        events s' = events s @ [DataSubmitted (dataCount s + 1) now]
      \<and> dataCount s' = dataCount s + 1
      \<and> unat (dataCount s + 1) = Suc (unat (dataCount s)))"
proof -
  let ?ids = "submitted_ids (events (run env cs deployed))"
  have a: "map unat ?ids = [1..<Suc (unat (dataCount (run env cs deployed)))]"
    by (rule submitted_invariant)
  have b: "0 \<notin> set ?ids"
  proof
    assume "0 \<in> set ?ids"
    then have "unat (0::uint256) \<in> unat ` set ?ids" by (rule imageI)
    then have "0 \<in> set (map unat ?ids)" by simp
    then have "0 \<in> set [1..<Suc (unat (dataCount (run env cs deployed)))]" by (simp only: a)
    then show False by auto
  qed
  have c: "events s' = events s @ [DataSubmitted (dataCount s + 1) now]
      \<and> dataCount s' = dataCount s + 1
      \<and> unat (dataCount s + 1) = Suc (unat (dataCount s))"
    if "submitEncryptedData eT eH eV eF now s = Inr s'"
    using submitEncryptedData_Inr [OF that] by (simp add: succ_unat)
  from a b c show ?thesis by blast
qed

theorem submitted_ids_consecutive_witness:
  "submitted_ids (events (run demo (example_calls @ example_calls) deployed)) = [1, 2]
   \<and> dataCount (run demo (example_calls @ example_calls) deployed) = 2
   \<and> submitEncryptedData None None None None 5 submitted_once
       = Inr (run demo [SubmitEncryptedData None None None None 5] submitted_once)
   \<and> events (run demo [SubmitEncryptedData None None None None 5] submitted_once)
       = [DataSubmitted 1 1700000000, DataSubmitted 2 5]"
proof -
  have a: "submitted_ids (events (run demo (example_calls @ example_calls) deployed)) = [1, 2]"
    by (simp add: example_calls_def demo_defs)
  have b: "dataCount (run demo (example_calls @ example_calls) deployed) = 2"
    by (simp add: example_calls_def demo_defs)
  have c: "submitEncryptedData None None None None 5 submitted_once
       = Inr (run demo [SubmitEncryptedData None None None None 5] submitted_once)"
    by (simp add: demo_defs)
  have d: "events submitted_once = [DataSubmitted 1 1700000000]"
    and e: "dataCount submitted_once = 1"
    by (simp_all add: demo_defs)
  from submitted_ids_consecutive [of demo "example_calls @ example_calls"
      None None None None 5 submitted_once
      "run demo [SubmitEncryptedData None None None None 5] submitted_once"] a b c d e
  show ?thesis by simp
qed



text \<open>
  C8. \<open>getDecryptedData\<close> only reads. In every reachable state it returns four empty
  strings and \<open>False\<close> for an id whose reveal has not completed: an id for which no
  \<open>DataDecrypted\<close> was logged, or whose slot is not revealed, whether or not the id is
  within \<open>dataCount\<close>; and always for id 0.
\<close>

theorem getDecryptedData_unrevealed:
  "(dataId \<notin> set (decrypted_ids (events (run env cs deployed)))
      \<or> \<not> isRevealed (decryptedDataset (run env cs deployed) dataId)
    \<longrightarrow> getDecryptedData (run env cs deployed) dataId = ('''', '''', '''', '''', False))
   \<and> getDecryptedData (run env cs deployed) 0 = ('''', '''', '''', '''', False)"
proof -
  have z: "getDecryptedData s i = ('''', '''', '''', '''', False)"
    if "decryptedDataset s i = zeroDecrypted" for s i
    using that by (simp add: getDecryptedData_def zeroDecrypted_def)
  from slots_invariant [of env cs dataId] slots_invariant [of env cs 0]
  show ?thesis by (auto intro!: z)
qed

theorem getDecryptedData_unrevealed_witness:
  "2 \<notin> set (decrypted_ids (events (run demo example_calls deployed)))
   \<and> dataCount (run demo example_calls deployed) = 1
   \<and> getDecryptedData (run demo example_calls deployed) 2 = ('''', '''', '''', '''', False)
   \<and> getDecryptedData (run demo example_calls deployed) 0 = ('''', '''', '''', '''', False)
   \<and> getDecryptedData (run demo example_calls deployed) 1 = (''20'', ''55'', ''0.3'', ''2'', True)"
proof -
  have h: "2 \<notin> set (decrypted_ids (events (run demo example_calls deployed)))"
    by (simp add: example_calls_def demo_defs)
  have a: "dataCount (run demo example_calls deployed) = 1"
    by (simp add: example_calls_def demo_defs)
  have b: "getDecryptedData (run demo example_calls deployed) 1 = (''20'', ''55'', ''0.3'', ''2'', True)"
    by (simp add: example_calls_def demo_defs getDecryptedData_def)
  from getDecryptedData_unrevealed [of 2 demo example_calls] h a b show ?thesis by simp
qed

text \<open>
  C9. \<open>computeRiskCategory\<close> returns "High" for every record, so a \<open>decryptData\<close>
  that succeeds adds one to the tally of "High" (an unwritten tally counting as 0) and
  leaves the tally of every other label as it was.
\<close>

theorem computeRiskCategory_constant:
  "computeRiskCategory dData = ''High''
   \<and> (decryptData env requestId cleartexts prf s = Inr s' \<longrightarrow>
        encryptedRiskCategoryCount s' ''High'' =
          Some (plain (encryptedRiskCategoryCount s ''High'') + 1)
      \<and> (\<forall>c. c \<noteq> ''High'' \<longrightarrow>
            encryptedRiskCategoryCount s' c = encryptedRiskCategoryCount s c))"
proof -
  have "encryptedRiskCategoryCount s' ''High'' =
          Some (plain (encryptedRiskCategoryCount s ''High'') + 1)
      \<and> (\<forall>c. c \<noteq> ''High'' \<longrightarrow>
            encryptedRiskCategoryCount s' c = encryptedRiskCategoryCount s c)"
    if "decryptData env requestId cleartexts prf s = Inr s'"
    using decryptData_Inr [OF that] by auto
  then show ?thesis by (simp add: computeRiskCategory_def)
qed

theorem computeRiskCategory_constant_witness:
  "computeRiskCategory zeroDecrypted = ''High''
   \<and> decryptData demo 7 [1] [1] requested_once = Inr revealed_once
   \<and> encryptedRiskCategoryCount requested_once ''High'' = None
   \<and> encryptedRiskCategoryCount revealed_once ''High'' = Some 1
   \<and> encryptedRiskCategoryCount revealed_once ''Low'' = None"
proof -
  have a: "decryptData demo 7 [1] [1] requested_once = Inr revealed_once"
    by (simp add: demo_defs)
  have b: "encryptedRiskCategoryCount requested_once c = None" for c
    by (simp add: demo_defs)
  from computeRiskCategory_constant
    [of zeroDecrypted demo 7 "[1]" "[1]" requested_once revealed_once] a b
  show ?thesis by (simp add: plain_def)
qed



end
